theory Spec2Isabelle
  imports Main "HOL-Library.Word"
begin

unbundle bit_operations_syntax

section \<open>The DBM 1.5 driver (drivers/usb/dwc3/dbm-1\_5.c)\<close>

text \<open>
  A shallow embedding of the driver. The C types are kept: \<open>u8\<close>, \<open>u32\<close> and
  \<open>phys_addr_t\<close> are words, C \<open>int\<close> values that are indices or counts are \<open>int\<close>,
  the \<open>int size\<close> of \<open>event_buffer_config\<close> is a 32-bit word read as two's complement.
  The global \<open>dbm_data\<close> is passed explicitly and returned updated.
\<close>

type_synonym u8 = "8 word"
type_synonym u32 = "32 word"
type_synonym phys_addr_t = "64 word"

subsection \<open>Register offsets\<close>

definition DBM_EP_CFG :: "int \<Rightarrow> u32" where
  "DBM_EP_CFG n = word_of_int (0x00 + 4 * n)"

definition DBM_DATA_FIFO_SIZE :: "int \<Rightarrow> u32" where
  "DBM_DATA_FIFO_SIZE n = word_of_int (0x80 + 4 * n)"

definition DBM_GEVNTSIZ :: u32 where
  "DBM_GEVNTSIZ = 0x268"

definition DBM_DBG_CNFG :: u32 where
  "DBM_DBG_CNFG = 0x208"

definition DBM_SOFT_RESET :: u32 where
  "DBM_SOFT_RESET = 0x20C"

definition DBM_GEN_CFG :: u32 where
  "DBM_GEN_CFG = 0x210"

definition DBM_GEVNTADR_LSB :: u32 where
  "DBM_GEVNTADR_LSB = 0x260"

definition DBM_GEVNTADR_MSB :: u32 where
  "DBM_GEVNTADR_MSB = 0x264"

definition DBM_DATA_FIFO_LSB :: "int \<Rightarrow> u32" where
  "DBM_DATA_FIFO_LSB n = word_of_int (0x100 + 8 * n)"

definition DBM_DATA_FIFO_MSB :: "int \<Rightarrow> u32" where
  "DBM_DATA_FIFO_MSB n = word_of_int (0x104 + 8 * n)"

definition DBM_DATA_FIFO_ADDR_EN :: u32 where
  "DBM_DATA_FIFO_ADDR_EN = 0x200"

definition DBM_DATA_FIFO_SIZE_EN :: u32 where
  "DBM_DATA_FIFO_SIZE_EN = 0x204"

definition DBM_1_5_NUM_EP :: nat where
  "DBM_1_5_NUM_EP = 8"

subsection \<open>Bit masks of dbm.h\<close>

text \<open>
  The driver includes \<open>dbm.h\<close> for the bit masks of the register fields. That header is
  not among the sources, so the masks are a parameter of every function that uses one.
  \<open>sample_masks\<close> is one layout, used to run the model on concrete inputs.
\<close>

record dbm_masks =
  DBM_EN_EP :: u32
  USB3_EPNUM :: u32
  DBM_PRODUCER :: u32
  DBM_DISABLE_WB :: u32
  DBM_INT_RAM_ACC :: u32
  DBM_DATA_FIFO_SIZE_MASK :: u32
  DBM_GEVNTSIZ_MASK :: u32
  DBM_ENABLE_IOC_MASK :: u32
  DBM_SFT_RST_EPS_MASK :: u32
  DBM_SFT_RST_MASK :: u32

definition sample_masks :: dbm_masks where
  "sample_masks = \<lparr>
     DBM_EN_EP = 0x00000001,
     USB3_EPNUM = 0x0000003E,
     DBM_PRODUCER = 0x00000100,
     DBM_DISABLE_WB = 0x00000200,
     DBM_INT_RAM_ACC = 0x00000400,
     DBM_DATA_FIFO_SIZE_MASK = 0x0000FFFF,
     DBM_GEVNTSIZ_MASK = 0x0000FFFF,
     DBM_ENABLE_IOC_MASK = 0x000000FF,
     DBM_SFT_RST_EPS_MASK = 0x000000FF,
     DBM_SFT_RST_MASK = 0x80000000 \<rparr>"

subsection \<open>Device context and observable events\<close>

text \<open>
  \<open>regs\<close> is the register window behind \<open>base\<close>, indexed by byte offset; a read
  returns what was last written there. \<open>ep_num_mapping\<close> is the array of
  \<open>DBM_1_5_NUM_EP\<close> bytes. \<open>trace\<close> lists, oldest first, the register accesses, the
  stores into \<open>ep_num_mapping\<close> (with the index used) and the delays.
  \<open>oob_store\<close> is set by a store whose index is outside the array: C gives such a store
  no meaning, and the model leaves the array as it is.
\<close>

datatype event =
    Io_read u32
  | Io_write u32 u32
  | Map_store nat u8
  | Udelay nat

record dbm_data =
  regs :: "u32 \<Rightarrow> u32"
  dbm_num_eps :: int
  ep_num_mapping :: "u8 list"
  oob_store :: bool
  trace :: "event list"

text \<open>
  Every failing branch of the driver is one constructor; \<open>errno\<close> is the negative
  value the C function returns there (\<open>ENODEV\<close> is 19 and \<open>EINVAL\<close> is 22).
\<close>

datatype dbm_error =
    Not_found
  | Invalid_usb_ep_index
  | Last_dbm_ep_cant_be_out_ep
  | Invalid_dbm_ep_index
  | Invalid_size

definition ENODEV :: int where
  "ENODEV = 19"

definition EINVAL :: int where
  "EINVAL = 22"

fun errno :: "dbm_error \<Rightarrow> int" where
  "errno Not_found = - ENODEV"
| "errno Invalid_usb_ep_index = - ENODEV"
| "errno Last_dbm_ep_cant_be_out_ep = - ENODEV"
| "errno Invalid_dbm_ep_index = - ENODEV"
| "errno Invalid_size = - EINVAL"

fun ret_val :: "dbm_error + int \<Rightarrow> int" where
  "ret_val (Inl e) = errno e"
| "ret_val (Inr v) = v"

subsection \<open>Register access\<close>

definition ioread32 :: "dbm_data \<Rightarrow> u32 \<Rightarrow> u32 \<times> dbm_data" where
  "ioread32 d offset = (regs d offset, d\<lparr>trace := trace d @ [Io_read offset]\<rparr>)"

definition iowrite32 :: "dbm_data \<Rightarrow> u32 \<Rightarrow> u32 \<Rightarrow> dbm_data" where
  "iowrite32 d val offset =
     d\<lparr>regs := (regs d)(offset := val), trace := trace d @ [Io_write offset val]\<rparr>"

text \<open>
  \<open>find_first_bit (&mask, 32)\<close>: the index of the lowest set bit, or the size when no
  bit is set.
\<close>

definition find_first_bit :: "u32 \<Rightarrow> nat \<Rightarrow> nat" where
  "find_first_bit w sz = (case find (bit w) [0..<sz] of Some i \<Rightarrow> i | None \<Rightarrow> sz)"

text \<open>
  The C parameters \<open>mask\<close> and \<open>size\<close> are written \<open>msk\<close> and \<open>sz\<close>.
  For \<open>msk = 0\<close> the shift count is 32, where C leaves \<open>val << shift\<close> undefined;
  \<open>push_bit 32\<close> on a 32-bit word is 0. Statements about the written value are made
  for masks with a bit set.
\<close>

definition msm_dbm_write_reg_field :: "dbm_data \<Rightarrow> u32 \<Rightarrow> u32 \<Rightarrow> u32 \<Rightarrow> dbm_data" where
  "msm_dbm_write_reg_field d offset msk val =
     (let shift = find_first_bit msk 32;
          (tmp, d1) = ioread32 d offset;
          tmp = tmp AND NOT msk;
          val = tmp OR push_bit shift val
      in iowrite32 d1 val offset)"

definition msm_dbm_read_reg :: "dbm_data \<Rightarrow> u32 \<Rightarrow> u32 \<times> dbm_data" where
  "msm_dbm_read_reg d offset = ioread32 d offset"

definition msm_dbm_write_reg :: "dbm_data \<Rightarrow> u32 \<Rightarrow> u32 \<Rightarrow> dbm_data" where
  "msm_dbm_write_reg d offset val = iowrite32 d val offset"

definition udelay :: "dbm_data \<Rightarrow> nat \<Rightarrow> dbm_data" where
  "udelay d n = d\<lparr>trace := trace d @ [Udelay n]\<rparr>"

text \<open>The statement \<open>dbm_data->ep_num_mapping[i] = v\<close>.\<close>

definition ep_num_mapping_store :: "dbm_data \<Rightarrow> nat \<Rightarrow> u8 \<Rightarrow> dbm_data" where
  "ep_num_mapping_store d i v =
     (if i < DBM_1_5_NUM_EP
      then d\<lparr>ep_num_mapping := (ep_num_mapping d)[i := v],
             trace := trace d @ [Map_store i v]\<rparr>
      else d\<lparr>oob_store := True, trace := trace d @ [Map_store i v]\<rparr>)"

subsection \<open>Endpoint slot lookup\<close>

text \<open>
  The loop of \<open>msm_dbm_find_matching_dbm_ep\<close>, from index \<open>i\<close>, over the two fields it
  reads. In a probed context \<open>dbm_num_eps\<close> is 8, so every index read is inside the array.
\<close>

function find_loop :: "int \<Rightarrow> u8 list \<Rightarrow> u8 \<Rightarrow> int \<Rightarrow> dbm_error + int" where
  "find_loop num_eps mapping usb_ep i =
     (if i < num_eps
      then (if mapping ! nat i = usb_ep then Inr i
            else find_loop num_eps mapping usb_ep (i + 1))
      else Inl Not_found)"
  by pat_completeness auto
termination
  by (relation "measure (\<lambda>(num_eps, mapping, usb_ep, i). nat (num_eps - i))") auto

declare find_loop.simps [simp del]

definition msm_dbm_find_matching_dbm_ep :: "dbm_data \<Rightarrow> u8 \<Rightarrow> dbm_error + int" where
  "msm_dbm_find_matching_dbm_ep d usb_ep =
     find_loop (dbm_num_eps d) (ep_num_mapping d) usb_ep 0"

subsection \<open>Soft reset\<close>

text \<open>
  \<open>1 << dbm_ep\<close> is an \<open>int\<close> shift in C; the slot index is below \<open>dbm_num_eps\<close>,
  which is 8, so the shifted bit is one of the low eight and \<open>push_bit\<close> on a 32-bit
  word gives the same mask.
\<close>

definition bool_u32 :: "bool \<Rightarrow> u32" where
  "bool_u32 b = (if b then 1 else 0)"

definition soft_reset :: "dbm_masks \<Rightarrow> dbm_data \<Rightarrow> bool \<Rightarrow> dbm_data \<times> (dbm_error + int)" where
  "soft_reset M d reset =
     (msm_dbm_write_reg_field d DBM_SOFT_RESET (DBM_SFT_RST_MASK M) (bool_u32 reset), Inr 0)"

definition dbm_ep_soft_reset ::
  "dbm_masks \<Rightarrow> dbm_data \<Rightarrow> u8 \<Rightarrow> bool \<Rightarrow> dbm_data \<times> (dbm_error + int)" where
  "dbm_ep_soft_reset M d dbm_ep enter_reset =
     (if uint dbm_ep \<ge> dbm_num_eps d then (d, Inl Invalid_dbm_ep_index)
      else if enter_reset
      then (msm_dbm_write_reg_field d DBM_SOFT_RESET
              (DBM_SFT_RST_EPS_MASK M AND push_bit (unat dbm_ep) 1) 1, Inr 0)
      else (msm_dbm_write_reg_field d DBM_SOFT_RESET
              (DBM_SFT_RST_EPS_MASK M AND push_bit (unat dbm_ep) 1) 0, Inr 0))"

subsection \<open>Endpoint configure and unconfigure\<close>

definition ep_config ::
  "dbm_masks \<Rightarrow> dbm_data \<Rightarrow> u8 \<Rightarrow> u8 \<Rightarrow> bool \<Rightarrow> bool \<Rightarrow> bool \<Rightarrow> bool
     \<Rightarrow> dbm_data \<times> (dbm_error + int)" where
  "ep_config M d usb_ep bam_pipe producer disable_wb internal_mem ioc =
     (case msm_dbm_find_matching_dbm_ep d usb_ep of
        Inl e \<Rightarrow> (d, Inl Invalid_usb_ep_index)
      | Inr dbm_ep \<Rightarrow>
          if dbm_ep = 7 \<and> producer then (d, Inl Last_dbm_ep_cant_be_out_ep)
          else
            let d1 = fst (dbm_ep_soft_reset M d (word_of_int dbm_ep) False);
                d2 = msm_dbm_write_reg_field d1 DBM_DBG_CNFG
                       (DBM_ENABLE_IOC_MASK M AND push_bit (nat dbm_ep) 1)
                       (if ioc then 1 else 0);
                internal_mem = False;
                ep_cfg = (if producer then DBM_PRODUCER M else 0) OR
                         (if disable_wb then DBM_DISABLE_WB M else 0) OR
                         (if internal_mem then DBM_INT_RAM_ACC M else 0);
                d3 = msm_dbm_write_reg_field d2 (DBM_EP_CFG dbm_ep)
                       (DBM_PRODUCER M OR DBM_DISABLE_WB M OR DBM_INT_RAM_ACC M)
                       (drop_bit 8 ep_cfg);
                d4 = msm_dbm_write_reg_field d3 (DBM_EP_CFG dbm_ep) (USB3_EPNUM M)
                       (ucast usb_ep);
                d5 = msm_dbm_write_reg_field d4 (DBM_EP_CFG dbm_ep) (DBM_EN_EP M) 1
            in (d5, Inr dbm_ep))"

definition ep_unconfig :: "dbm_masks \<Rightarrow> dbm_data \<Rightarrow> u8 \<Rightarrow> dbm_data \<times> (dbm_error + int)" where
  "ep_unconfig M d usb_ep =
     (case msm_dbm_find_matching_dbm_ep d usb_ep of
        Inl e \<Rightarrow> (d, Inl Invalid_usb_ep_index)
      | Inr dbm_ep \<Rightarrow>
          let d1 = ep_num_mapping_store d (nat dbm_ep) 0;
              (data, d2) = msm_dbm_read_reg d1 (DBM_EP_CFG dbm_ep);
              data = data AND NOT 1;
              d3 = msm_dbm_write_reg d2 (DBM_EP_CFG dbm_ep) data;
              d4 = fst (dbm_ep_soft_reset M d3 (word_of_int dbm_ep) True);
              d5 = udelay d4 10;
              d6 = fst (dbm_ep_soft_reset M d5 (word_of_int dbm_ep) False)
          in (d6, Inr 0))"

subsection \<open>Configured-endpoint count\<close>

function count_loop :: "int \<Rightarrow> u8 list \<Rightarrow> int \<Rightarrow> int \<Rightarrow> int" where
  "count_loop num_eps mapping i count =
     (if i < num_eps
      then count_loop num_eps mapping (i + 1)
             (if mapping ! nat i \<noteq> 0 then count + 1 else count)
      else count)"
  by pat_completeness auto
termination
  by (relation "measure (\<lambda>(num_eps, mapping, i, count). nat (num_eps - i))") auto

declare count_loop.simps [simp del]

definition get_num_of_eps_configured :: "dbm_data \<Rightarrow> int" where
  "get_num_of_eps_configured d = count_loop (dbm_num_eps d) (ep_num_mapping d) 0 0"

subsection \<open>Event buffer, data FIFO, speed, enable\<close>

definition event_buffer_config ::
  "dbm_masks \<Rightarrow> dbm_data \<Rightarrow> u32 \<Rightarrow> u32 \<Rightarrow> 32 word \<Rightarrow> dbm_data \<times> (dbm_error + int)" where
  "event_buffer_config M d addr_lo addr_hi sz =
     (if sz <s 0 then (d, Inl Invalid_size)
      else
        let d1 = msm_dbm_write_reg d DBM_GEVNTADR_LSB addr_lo;
            d2 = msm_dbm_write_reg d1 DBM_GEVNTADR_MSB addr_hi;
            d3 = msm_dbm_write_reg_field d2 DBM_GEVNTSIZ (DBM_GEVNTSIZ_MASK M) sz
        in (d3, Inr 0))"

definition lower_32_bits :: "phys_addr_t \<Rightarrow> u32" where
  "lower_32_bits n = ucast n"

definition upper_32_bits :: "phys_addr_t \<Rightarrow> u32" where
  "upper_32_bits n = ucast (drop_bit 32 n)"

definition data_fifo_config ::
  "dbm_masks \<Rightarrow> dbm_data \<Rightarrow> u8 \<Rightarrow> phys_addr_t \<Rightarrow> u32 \<Rightarrow> u8 \<Rightarrow> dbm_data \<times> (dbm_error + int)" where
  "data_fifo_config M d dep_num addr sz dst_pipe_idx =
     (let dbm_ep = dst_pipe_idx;
          lo = lower_32_bits addr;
          hi = upper_32_bits addr;
          d1 = ep_num_mapping_store d (unat dbm_ep) dep_num;
          d2 = msm_dbm_write_reg d1 (DBM_DATA_FIFO_LSB (uint dbm_ep)) lo;
          d3 = msm_dbm_write_reg d2 (DBM_DATA_FIFO_MSB (uint dbm_ep)) hi;
          d4 = msm_dbm_write_reg_field d3 (DBM_DATA_FIFO_SIZE (uint dbm_ep))
                 (DBM_DATA_FIFO_SIZE_MASK M) sz
      in (d4, Inr 0))"

definition set_speed :: "dbm_data \<Rightarrow> bool \<Rightarrow> dbm_data" where
  "set_speed d speed = msm_dbm_write_reg d DBM_GEN_CFG (bool_u32 speed)"

definition enable :: "dbm_data \<Rightarrow> dbm_data" where
  "enable d =
     (let d1 = msm_dbm_write_reg d DBM_DATA_FIFO_ADDR_EN 0x000000FF
      in msm_dbm_write_reg d1 DBM_DATA_FIFO_SIZE_EN 0x000000FF)"

subsection \<open>Probe and the operation table\<close>

text \<open>
  The context after a successful \<open>msm_dbm_probe\<close>: \<open>devm_kzalloc\<close> zeroes the mapping
  table, \<open>dbm_num_eps\<close> is \<open>DBM_1_5_NUM_EP\<close>; \<open>r\<close> is what the hardware registers hold.
\<close>

definition msm_dbm_probe :: "(u32 \<Rightarrow> u32) \<Rightarrow> dbm_data" where
  "msm_dbm_probe r =
     \<lparr> regs = r, dbm_num_eps = int DBM_1_5_NUM_EP,
       ep_num_mapping = replicate DBM_1_5_NUM_EP 0,
       oob_store = False, trace = [] \<rparr>"

text \<open>The eight operations that probe puts into \<open>struct dbm\<close>, as calls with arguments.\<close>

datatype dbm_call =
    Soft_reset bool
  | Ep_config u8 u8 bool bool bool bool
  | Ep_unconfig u8
  | Get_num_of_eps_configured
  | Event_buffer_config u32 u32 "32 word"
  | Data_fifo_config u8 phys_addr_t u32 u8
  | Set_speed bool
  | Enable

fun dbm_op :: "dbm_masks \<Rightarrow> dbm_data \<Rightarrow> dbm_call \<Rightarrow> dbm_data \<times> (dbm_error + int)" where
  "dbm_op M d (Soft_reset reset) = soft_reset M d reset"
| "dbm_op M d (Ep_config usb_ep bam_pipe producer disable_wb internal_mem ioc) =
     ep_config M d usb_ep bam_pipe producer disable_wb internal_mem ioc"
| "dbm_op M d (Ep_unconfig usb_ep) = ep_unconfig M d usb_ep"
| "dbm_op M d Get_num_of_eps_configured = (d, Inr (get_num_of_eps_configured d))"
| "dbm_op M d (Event_buffer_config addr_lo addr_hi sz) =
     event_buffer_config M d addr_lo addr_hi sz"
| "dbm_op M d (Data_fifo_config dep_num addr sz dst_pipe_idx) =
     data_fifo_config M d dep_num addr sz dst_pipe_idx"
| "dbm_op M d (Set_speed speed) = (set_speed d speed, Inr 0)"
| "dbm_op M d Enable = (enable d, Inr 0)"

fun dbm_run :: "dbm_masks \<Rightarrow> dbm_data \<Rightarrow> dbm_call list \<Rightarrow> dbm_data" where
  "dbm_run M d [] = d"
| "dbm_run M d (c # cs) = dbm_run M (fst (dbm_op M d c)) cs"


subsection \<open>Auxiliary definitions for the statements\<close>

text \<open>The word that \<open>msm_dbm_write_reg_field\<close> writes when the register holds \<open>tmp\<close>.\<close>

definition field_word :: "u32 \<Rightarrow> u32 \<Rightarrow> u32 \<Rightarrow> u32" where
  "field_word tmp msk val = (tmp AND NOT msk) OR push_bit (find_first_bit msk 32) val"

definition zero_regs :: "u32 \<Rightarrow> u32" where
  "zero_regs offset = 0"

definition ones_regs :: "u32 \<Rightarrow> u32" where
  "ones_regs offset = 0xFFFFFFFF"

text \<open>A context as \<open>msm_dbm_probe\<close> leaves it: 8 slots and an 8-entry table.\<close>

definition dbm_data_ok :: "dbm_data \<Rightarrow> bool" where
  "dbm_data_ok d \<longleftrightarrow>
     dbm_num_eps d = int DBM_1_5_NUM_EP \<and> length (ep_num_mapping d) = DBM_1_5_NUM_EP"

text \<open>Endpoint 5 bound to the last slot, endpoint 3 bound to slot 2, on a zeroed window.\<close>

definition ep5_on_slot7 :: dbm_data where
  "ep5_on_slot7 = fst (data_fifo_config sample_masks (msm_dbm_probe zero_regs) 5 0 0 7)"

definition ep3_on_slot2 :: dbm_data where
  "ep3_on_slot2 =
     fst (data_fifo_config sample_masks (msm_dbm_probe zero_regs) 3 0x100000000 4096 2)"

definition ep1_on_slot0 :: dbm_data where
  "ep1_on_slot0 = fst (data_fifo_config sample_masks (msm_dbm_probe zero_regs) 1 0 0 0)"

text \<open>Counting the register writes in a trace, and the writes of each operation.\<close>

fun is_io_write :: "event \<Rightarrow> bool" where
  "is_io_write (Io_write offset val) = True"
| "is_io_write e = False"

definition io_writes :: "event list \<Rightarrow> nat" where
  "io_writes tr = length (filter is_io_write tr)"

fun call_io_writes :: "dbm_call \<Rightarrow> nat" where
  "call_io_writes (Soft_reset reset) = 1"
| "call_io_writes (Ep_config usb_ep bam_pipe producer disable_wb internal_mem ioc) = 5"
| "call_io_writes (Ep_unconfig usb_ep) = 3"
| "call_io_writes Get_num_of_eps_configured = 0"
| "call_io_writes (Event_buffer_config addr_lo addr_hi sz) = 3"
| "call_io_writes (Data_fifo_config dep_num addr sz dst_pipe_idx) = 3"
| "call_io_writes (Set_speed speed) = 1"
| "call_io_writes Enable = 2"

text \<open>
  The invariant of the mapping table: no nonzero logical endpoint number occurs twice.
  \<open>bind_ok\<close> is what a caller of \<open>data_fifo_config\<close> has to respect for it: the slot index
  is inside the table and the endpoint number is 0 or bound to no other slot.
\<close>

definition mapping_unique :: "u8 list \<Rightarrow> bool" where
  "mapping_unique m = distinct (filter (\<lambda>x. x \<noteq> 0) m)"

fun bind_ok :: "dbm_data \<Rightarrow> dbm_call \<Rightarrow> bool" where
  "bind_ok d (Data_fifo_config dep_num addr sz dst_pipe_idx) =
     (unat dst_pipe_idx < DBM_1_5_NUM_EP \<and>
      (dep_num = 0 \<or> dep_num \<notin> set ((ep_num_mapping d)[unat dst_pipe_idx := 0])))"
| "bind_ok d c = True"

fun calls_ok :: "dbm_masks \<Rightarrow> dbm_data \<Rightarrow> dbm_call list \<Rightarrow> bool" where
  "calls_ok M d [] = True"
| "calls_ok M d (c # cs) = (bind_ok d c \<and> calls_ok M (fst (dbm_op M d c)) cs)"

text \<open>
  What the round trip needs of the register layout: the enable bit, the endpoint-number
  field and the three flag bits of \<open>DBM_EP_CFG\<close> are non-empty and do not overlap, and a
  value \<open>fits\<close> a field when, shifted to the field, it has no bit outside the mask.
\<close>

definition flags_mask :: "dbm_masks \<Rightarrow> u32" where
  "flags_mask M = DBM_PRODUCER M OR DBM_DISABLE_WB M OR DBM_INT_RAM_ACC M"

definition flags_val :: "dbm_masks \<Rightarrow> bool \<Rightarrow> bool \<Rightarrow> u32" where
  "flags_val M producer disable_wb =
     drop_bit 8 ((if producer then DBM_PRODUCER M else 0) OR
                 (if disable_wb then DBM_DISABLE_WB M else 0))"

definition fits :: "u32 \<Rightarrow> u32 \<Rightarrow> bool" where
  "fits msk val \<longleftrightarrow> push_bit (find_first_bit msk 32) val AND NOT msk = 0"

definition ep_cfg_layout_ok :: "dbm_masks \<Rightarrow> bool" where
  "ep_cfg_layout_ok M \<longleftrightarrow>
     DBM_EN_EP M \<noteq> 0 \<and> USB3_EPNUM M \<noteq> 0 \<and> flags_mask M \<noteq> 0 \<and>
     DBM_EN_EP M AND USB3_EPNUM M = 0 \<and>
     DBM_EN_EP M AND flags_mask M = 0 \<and>
     USB3_EPNUM M AND flags_mask M = 0"

text \<open>Endpoint 3 bound to slot 2 and configured there.\<close>

definition ep3_configured :: dbm_data where
  "ep3_configured = fst (ep_config sample_masks ep3_on_slot2 3 0 True True False True)"

text \<open>Slot 2, still enabled for endpoint 3, bound to endpoint 4.\<close>

definition ep4_rebound_slot2 :: dbm_data where
  "ep4_rebound_slot2 = fst (data_fifo_config sample_masks ep3_configured 4 0 0 2)"

section \<open>Properties\<close>

subsection \<open>Masked field write\<close>

lemma write_reg_field_eq:
  "msm_dbm_write_reg_field d offset msk val =
     d\<lparr>regs := (regs d)(offset := field_word (regs d offset) msk val),
       trace := trace d @
         [Io_read offset, Io_write offset (field_word (regs d offset) msk val)]\<rparr>"
  by (simp add: msm_dbm_write_reg_field_def ioread32_def iowrite32_def field_word_def Let_def)

lemma find_upt_least:
  "find P [a..<b] = Some i \<Longrightarrow>
     a \<le> i \<and> i < b \<and> P i \<and> (\<forall>j. a \<le> j \<and> j < i \<longrightarrow> \<not> P j)"
proof (induction "b - a" arbitrary: a)
  case 0
  then show ?case by simp
next
  case (Suc n)
  then have ab: "a < b" by simp
  then have upt: "[a..<b] = a # [Suc a..<b]" by (simp add: upt_conv_Cons)
  show ?case
  proof (cases "P a")
    case True
    with Suc.prems upt ab show ?thesis by auto
  next
    case False
    with Suc.prems upt have f: "find P [Suc a..<b] = Some i" by simp
    have "n = b - Suc a" using Suc.hyps(2) by simp
    from Suc.hyps(1)[OF this f] False show ?thesis
      by (metis Suc_leD Suc_leI le_neq_implies_less)
  qed
qed

lemma find_first_bit_nonzero:
  fixes m :: u32
  assumes "m \<noteq> 0"
  shows "find_first_bit m 32 < 32 \<and> bit m (find_first_bit m 32) \<and>
         (\<forall>j < find_first_bit m 32. \<not> bit m j)"
proof -
  from assms obtain k where k: "bit m k"
    by (auto simp: bit_eq_iff)
  then have k32: "k < 32" using bit_imp_le_length[of m k] by simp
  have "find (bit m) [0..<32] \<noteq> None"
    using k k32 by (auto simp: find_None_iff)
  then obtain i where i: "find (bit m) [0..<32] = Some i" by auto
  from find_upt_least[OF i] i show ?thesis
    by (simp add: find_first_bit_def)
qed

lemma field_word_outside:
  "push_bit (find_first_bit m 32) v AND NOT m = 0 \<Longrightarrow> field_word r m v AND NOT m = r AND NOT m"
  by (simp add: field_word_def bit.conj_disj_distrib2 and.assoc)

lemma field_word_inside:
  assumes "push_bit (find_first_bit m 32) v AND NOT m = 0"
  shows "field_word r m v AND m = push_bit (find_first_bit m 32) v"
proof (rule bit_word_eqI)
  fix n assume "n < LENGTH(32)"
  from assms have "bit (push_bit (find_first_bit m 32) v AND NOT m) n = bit (0::u32) n"
    by simp
  then show "bit (field_word r m v AND m) n = bit (push_bit (find_first_bit m 32) v) n"
    by (auto simp: field_word_def bit_simps)
qed

lemma field_word_twice:
  "push_bit (find_first_bit m 32) v1 AND NOT m = 0 \<Longrightarrow>
   field_word (field_word r m v1) m v2 = field_word r m v2"
  by (simp add: field_word_def bit.conj_disj_distrib2 and.assoc)


lemma field_word_other:
  assumes "m AND m' = 0" and "push_bit (find_first_bit m 32) v AND NOT m = 0"
  shows "field_word r m v AND m' = r AND m'"
proof (rule bit_word_eqI)
  fix n assume n: "n < LENGTH(32)"
  from assms(1) have a: "bit (m AND m') n = bit (0::u32) n" by simp
  from assms(2) have b: "bit (push_bit (find_first_bit m 32) v AND NOT m) n = bit (0::u32) n"
    by simp
  from a b n show "bit (field_word r m v AND m') n = bit (r AND m') n"
    by (auto simp: field_word_def bit_simps)
qed

text \<open>
  C5 (amended). For a mask with a bit set, the shift is the position of the lowest set
  bit of the mask. When the value shifted there has no bit outside the mask, the register
  keeps its bits outside the mask and holds exactly the shifted value inside the mask.
\<close>

theorem msm_dbm_write_reg_field_masked:
  assumes "msk \<noteq> 0"
    and "push_bit (find_first_bit msk 32) val AND NOT msk = 0"
  shows "bit msk (find_first_bit msk 32) \<and>
         (\<forall>j < find_first_bit msk 32. \<not> bit msk j) \<and>
         regs (msm_dbm_write_reg_field d offset msk val) offset AND NOT msk =
           regs d offset AND NOT msk \<and>
         regs (msm_dbm_write_reg_field d offset msk val) offset AND msk =
           push_bit (find_first_bit msk 32) val"
  using find_first_bit_nonzero[OF assms(1)] field_word_outside[OF assms(2)]
    field_word_inside[OF assms(2)]
  by (simp add: write_reg_field_eq)

theorem msm_dbm_write_reg_field_masked_witness:
  "(0x3E :: u32) \<noteq> 0 \<and> push_bit (find_first_bit 0x3E 32) (3 :: u32) AND NOT 0x3E = 0 \<and>
   regs (msm_dbm_write_reg_field (msm_dbm_probe ones_regs) 0 0x3E 3) 0 AND NOT 0x3E =
     regs (msm_dbm_probe ones_regs) 0 AND NOT 0x3E \<and>
   regs (msm_dbm_write_reg_field (msm_dbm_probe ones_regs) 0 0x3E 3) 0 AND 0x3E = 6"
proof -
  have h1: "(0x3E :: u32) \<noteq> 0" by simp
  have s: "find_first_bit 0x3E 32 = 1" by code_simp
  have h2: "push_bit (find_first_bit 0x3E 32) (3 :: u32) AND NOT 0x3E = 0"
    by (simp add: s)
  from msm_dbm_write_reg_field_masked[OF h1 h2, of "msm_dbm_probe ones_regs" 0] h1 h2
  show ?thesis by (simp add: s)
qed

text \<open>
  C5 as stated fails: the value 32 written through the mask 0x3E (shift 1) sets bit 6,
  which is outside the mask.
\<close>

theorem msm_dbm_write_reg_field_spills:
  "regs (msm_dbm_write_reg_field (msm_dbm_probe zero_regs) 0 0x3E 0x20) 0 AND NOT 0x3E \<noteq>
   regs (msm_dbm_probe zero_regs) 0 AND NOT 0x3E"
  by code_simp

text \<open>
  C6 (amended). For a mask with a bit set and a first value that, shifted to the field,
  has no bit outside the mask, writing a second value through the same mask leaves the
  registers as a single write of the second value does.
\<close>

theorem msm_dbm_write_reg_field_overwrite:
  assumes "msk \<noteq> 0"
    and "push_bit (find_first_bit msk 32) v1 AND NOT msk = 0"
  shows "regs (msm_dbm_write_reg_field (msm_dbm_write_reg_field d offset msk v1) offset msk v2) =
         regs (msm_dbm_write_reg_field d offset msk v2)"
  using field_word_twice[OF assms(2)]
  by (simp add: write_reg_field_eq)

theorem msm_dbm_write_reg_field_overwrite_witness:
  "(0x3E :: u32) \<noteq> 0 \<and> push_bit (find_first_bit 0x3E 32) (3 :: u32) AND NOT 0x3E = 0 \<and>
   regs (msm_dbm_write_reg_field (msm_dbm_write_reg_field (msm_dbm_probe ones_regs) 0 0x3E 3)
           0 0x3E 5) =
   regs (msm_dbm_write_reg_field (msm_dbm_probe ones_regs) 0 0x3E 5)"
proof -
  have h1: "(0x3E :: u32) \<noteq> 0" by simp
  have s: "find_first_bit 0x3E 32 = 1" by code_simp
  have h2: "push_bit (find_first_bit 0x3E 32) (3 :: u32) AND NOT 0x3E = 0"
    by (simp add: s)
  from msm_dbm_write_reg_field_overwrite[OF h1 h2, of "msm_dbm_probe ones_regs" 0 5] h1 h2
  show ?thesis by blast
qed

text \<open>
  C6 as stated fails: with mask 1, writing 2 and then 0 leaves bit 1 set, a single write
  of 0 does not.
\<close>

theorem msm_dbm_write_reg_field_overwrite_fails:
  "regs (msm_dbm_write_reg_field (msm_dbm_write_reg_field (msm_dbm_probe zero_regs) 0 1 2)
           0 1 0) 0 \<noteq>
   regs (msm_dbm_write_reg_field (msm_dbm_probe zero_regs) 0 1 0) 0"
  by code_simp

subsection \<open>Data FIFO configuration\<close>

lemma uint_word_of_int_small:
  "0 \<le> k \<Longrightarrow> k < 2 ^ 32 \<Longrightarrow> uint (word_of_int k :: u32) = k"
  by (simp add: uint_word_of_int_eq take_bit_int_eq_self)

lemma fifo_size_neq_lsb: "DBM_DATA_FIFO_SIZE (uint (x::u8)) \<noteq> DBM_DATA_FIFO_LSB (uint x)"
proof
  assume eq: "DBM_DATA_FIFO_SIZE (uint x) = DBM_DATA_FIFO_LSB (uint x)"
  have b: "0 \<le> uint x" "uint x < 256" using uint_lt2p[of x] by simp_all
  have l: "uint (word_of_int (0x80 + 4 * uint x) :: u32) = 0x80 + 4 * uint x"
    using b by (intro uint_word_of_int_small) simp_all
  have r: "uint (word_of_int (0x100 + 8 * uint x) :: u32) = 0x100 + 8 * uint x"
    using b by (intro uint_word_of_int_small) simp_all
  from eq have "uint (word_of_int (0x80 + 4 * uint x) :: u32) =
                uint (word_of_int (0x100 + 8 * uint x) :: u32)"
    unfolding DBM_DATA_FIFO_SIZE_def DBM_DATA_FIFO_LSB_def by (rule arg_cong)
  with l r b show False by linarith
qed

lemma fifo_size_neq_msb: "DBM_DATA_FIFO_SIZE (uint (x::u8)) \<noteq> DBM_DATA_FIFO_MSB (uint x)"
proof
  assume eq: "DBM_DATA_FIFO_SIZE (uint x) = DBM_DATA_FIFO_MSB (uint x)"
  have b: "0 \<le> uint x" "uint x < 256" using uint_lt2p[of x] by simp_all
  have l: "uint (word_of_int (0x80 + 4 * uint x) :: u32) = 0x80 + 4 * uint x"
    using b by (intro uint_word_of_int_small) simp_all
  have r: "uint (word_of_int (0x104 + 8 * uint x) :: u32) = 0x104 + 8 * uint x"
    using b by (intro uint_word_of_int_small) simp_all
  from eq have "uint (word_of_int (0x80 + 4 * uint x) :: u32) =
                uint (word_of_int (0x104 + 8 * uint x) :: u32)"
    unfolding DBM_DATA_FIFO_SIZE_def DBM_DATA_FIFO_MSB_def by (rule arg_cong)
  with l r b show False by linarith
qed

lemma store_trace: "trace (ep_num_mapping_store d i v) = trace d @ [Map_store i v]"
  by (simp add: ep_num_mapping_store_def)

lemma store_regs: "regs (ep_num_mapping_store d i v) = regs d"
  by (simp add: ep_num_mapping_store_def)

lemma store_mapping:
  "ep_num_mapping (ep_num_mapping_store d i v) =
     (if i < DBM_1_5_NUM_EP then (ep_num_mapping d)[i := v] else ep_num_mapping d)"
  by (simp add: ep_num_mapping_store_def)

lemma store_oob:
  "oob_store (ep_num_mapping_store d i v) = (oob_store d \<or> DBM_1_5_NUM_EP \<le> i)"
  by (auto simp add: ep_num_mapping_store_def)

lemma store_num_eps: "dbm_num_eps (ep_num_mapping_store d i v) = dbm_num_eps d"
  by (simp add: ep_num_mapping_store_def)

lemma write_reg_eq:
  "msm_dbm_write_reg d offset val =
     d\<lparr>regs := (regs d)(offset := val), trace := trace d @ [Io_write offset val]\<rparr>"
  by (simp add: msm_dbm_write_reg_def iowrite32_def)

text \<open>
  C4 (amended). \<open>data_fifo_config\<close> first stores the logical endpoint number in the
  mapping table at the destination slot, then writes the low and the high address half
  and the masked size field into the slot's FIFO registers; it returns 0.
\<close>

theorem data_fifo_config_trace:
  "trace (fst (data_fifo_config M d dep_num addr sz dst_pipe_idx)) =
     trace d @
     [Map_store (unat dst_pipe_idx) dep_num,
      Io_write (DBM_DATA_FIFO_LSB (uint dst_pipe_idx)) (lower_32_bits addr),
      Io_write (DBM_DATA_FIFO_MSB (uint dst_pipe_idx)) (upper_32_bits addr),
      Io_read (DBM_DATA_FIFO_SIZE (uint dst_pipe_idx)),
      Io_write (DBM_DATA_FIFO_SIZE (uint dst_pipe_idx))
        (field_word (regs d (DBM_DATA_FIFO_SIZE (uint dst_pipe_idx)))
           (DBM_DATA_FIFO_SIZE_MASK M) sz)] \<and>
   ret_val (snd (data_fifo_config M d dep_num addr sz dst_pipe_idx)) = 0"
  by (simp add: data_fifo_config_def Let_def write_reg_field_eq write_reg_eq store_trace
      store_regs fifo_size_neq_lsb fifo_size_neq_msb)

text \<open>
  C4 as stated fails: binding endpoint 3 to slot 2, the store into the mapping table is
  the first event and the register writes follow it.
\<close>

theorem data_fifo_config_store_first:
  "trace (fst (data_fifo_config sample_masks (msm_dbm_probe zero_regs) 3 0x100000000 4096 2)) =
     [Map_store 2 3, Io_write 0x110 0, Io_write 0x114 1, Io_read 0x88, Io_write 0x88 0x1000] \<and>
   trace (fst (data_fifo_config sample_masks (msm_dbm_probe zero_regs) 3 0x100000000 4096 2)) \<noteq>
     [Io_write 0x110 0, Io_write 0x114 1, Io_read 0x88, Io_write 0x88 0x1000, Map_store 2 3]"
  by code_simp

text \<open>
  C10. \<open>data_fifo_config\<close> returns 0 for every input and checks no index: the store
  uses \<open>dst_pipe_idx\<close> as it comes, it lands in the 8-entry table exactly when
  \<open>dst_pipe_idx < 8\<close>, and for every larger index it is outside the table.
\<close>

theorem data_fifo_config_unchecked:
  "snd (data_fifo_config M d dep_num addr sz dst_pipe_idx) = Inr 0 \<and>
   trace (fst (data_fifo_config M d dep_num addr sz dst_pipe_idx)) ! length (trace d) =
     Map_store (unat dst_pipe_idx) dep_num \<and>
   (unat dst_pipe_idx < DBM_1_5_NUM_EP \<longrightarrow>
      oob_store (fst (data_fifo_config M d dep_num addr sz dst_pipe_idx)) = oob_store d \<and>
      ep_num_mapping (fst (data_fifo_config M d dep_num addr sz dst_pipe_idx)) =
        (ep_num_mapping d)[unat dst_pipe_idx := dep_num]) \<and>
   (DBM_1_5_NUM_EP \<le> unat dst_pipe_idx \<longrightarrow>
      oob_store (fst (data_fifo_config M d dep_num addr sz dst_pipe_idx)) \<and>
      ep_num_mapping (fst (data_fifo_config M d dep_num addr sz dst_pipe_idx)) =
        ep_num_mapping d)"
  by (simp add: data_fifo_config_def Let_def write_reg_field_eq write_reg_eq store_trace
      store_mapping store_oob nth_append)

theorem data_fifo_config_unchecked_witness:
  "unat (2 :: u8) < DBM_1_5_NUM_EP \<and> DBM_1_5_NUM_EP \<le> unat (8 :: u8) \<and>
   ep_num_mapping (fst (data_fifo_config sample_masks (msm_dbm_probe zero_regs) 3 0 0 2)) =
     [0, 0, 3, 0, 0, 0, 0, 0] \<and>
   \<not> oob_store (fst (data_fifo_config sample_masks (msm_dbm_probe zero_regs) 3 0 0 2)) \<and>
   oob_store (fst (data_fifo_config sample_masks (msm_dbm_probe zero_regs) 3 0 0 8)) \<and>
   snd (data_fifo_config sample_masks (msm_dbm_probe zero_regs) 3 0 0 8) = Inr 0"
proof -
  have h1: "unat (2 :: u8) < DBM_1_5_NUM_EP" by (simp add: DBM_1_5_NUM_EP_def)
  have h2: "DBM_1_5_NUM_EP \<le> unat (8 :: u8)" by (simp add: DBM_1_5_NUM_EP_def)
  have m: "(ep_num_mapping (msm_dbm_probe zero_regs))[unat (2 :: u8) := 3] =
             [0, 0, 3, 0, 0, 0, 0, 0]"
    by code_simp
  have o: "\<not> oob_store (msm_dbm_probe zero_regs)" by (simp add: msm_dbm_probe_def)
  from data_fifo_config_unchecked[of sample_masks "msm_dbm_probe zero_regs" 3 0 0 2]
    data_fifo_config_unchecked[of sample_masks "msm_dbm_probe zero_regs" 3 0 0 8]
    h1 h2 m o
  show ?thesis by simp
qed

subsection \<open>Endpoint slot lookup and endpoint configure\<close>

lemma find_loop_Inr:
  "find_loop n m u i = Inr k \<Longrightarrow>
     i \<le> k \<and> k < n \<and> m ! nat k = u \<and> (\<forall>j. i \<le> j \<and> j < k \<longrightarrow> m ! nat j \<noteq> u)"
proof (induction n m u i rule: find_loop.induct)
  case (1 n m u i)
  note unf = find_loop.simps[of n m u i]
  show ?case
  proof (cases "i < n")
    case False
    with "1.prems" unf show ?thesis by simp
  next
    case inb: True
    show ?thesis
    proof (cases "m ! nat i = u")
      case True
      with inb "1.prems" unf have ki: "k = i" by simp
      have "m ! nat j \<noteq> u" if "i \<le> j" "j < k" for j
        using that ki by linarith
      with ki inb True show ?thesis by blast
    next
      case False
      with inb "1.prems" unf have r: "find_loop n m u (i + 1) = Inr k" by simp
      from "1.IH"[OF inb False r]
      have ih: "i + 1 \<le> k" "k < n" "m ! nat k = u"
        "\<forall>j. i + 1 \<le> j \<and> j < k \<longrightarrow> m ! nat j \<noteq> u"
        by blast+
      have "m ! nat j \<noteq> u" if "i \<le> j" "j < k" for j
      proof (cases "j = i")
        case True
        with False show ?thesis by simp
      next
        case neq: False
        with that have "i + 1 \<le> j" by linarith
        with ih(4) that show ?thesis by blast
      qed
      moreover have "i \<le> k" using ih(1) by linarith
      ultimately show ?thesis using ih(2,3) by blast
    qed
  qed
qed

lemma find_loop_Inl:
  "find_loop n m u i = Inl e \<Longrightarrow>
     e = Not_found \<and> (\<forall>j. i \<le> j \<and> j < n \<longrightarrow> m ! nat j \<noteq> u)"
proof (induction n m u i rule: find_loop.induct)
  case (1 n m u i)
  note unf = find_loop.simps[of n m u i]
  show ?case
  proof (cases "i < n")
    case False
    with "1.prems" unf have "e = Not_found" by simp
    with False show ?thesis by auto
  next
    case inb: True
    show ?thesis
    proof (cases "m ! nat i = u")
      case True
      with inb "1.prems" unf show ?thesis by simp
    next
      case False
      with inb "1.prems" unf have r: "find_loop n m u (i + 1) = Inl e" by simp
      from "1.IH"[OF inb False r]
      have ih: "e = Not_found"
        "\<forall>j. i + 1 \<le> j \<and> j < n \<longrightarrow> m ! nat j \<noteq> u"
        by blast+
      have "m ! nat j \<noteq> u" if "i \<le> j" "j < n" for j
      proof (cases "j = i")
        case True
        with False show ?thesis by simp
      next
        case neq: False
        with that have "i + 1 \<le> j" by linarith
        with ih(2) that show ?thesis by blast
      qed
      with ih(1) show ?thesis by blast
    qed
  qed
qed

lemma find_loop_hit:
  assumes "i \<le> k" "k < n" "m ! nat k = u"
  shows "\<exists>k'. find_loop n m u i = Inr k'"
proof (cases "find_loop n m u i")
  case (Inl e)
  from find_loop_Inl[OF Inl] assms show ?thesis by blast
next
  case (Inr k')
  then show ?thesis by blast
qed

lemma find_loop_first:
  assumes "n = int (length m)" and "u \<in> set m"
  shows "\<exists>i < length m. m ! i = u \<and> (\<forall>j<i. m ! j \<noteq> u) \<and> find_loop n m u 0 = Inr (int i)"
proof -
  from assms(2) obtain k where k: "k < length m" "m ! k = u"
    by (auto simp: in_set_conv_nth)
  with assms(1) have "\<exists>k'. find_loop n m u 0 = Inr k'"
    by (intro find_loop_hit[where k = "int k"]) simp_all
  then obtain k' where k': "find_loop n m u 0 = Inr k'" by blast
  from find_loop_Inr[OF k']
  have f: "0 \<le> k'" "k' < n" "m ! nat k' = u"
    "\<forall>j. 0 \<le> j \<and> j < k' \<longrightarrow> m ! nat j \<noteq> u"
    by blast+
  have "m ! j \<noteq> u" if "j < nat k'" for j
  proof -
    from that f(1) have "0 \<le> int j \<and> int j < k'" by linarith
    with f(4) have "m ! nat (int j) \<noteq> u" by blast
    then show ?thesis by simp
  qed
  moreover have "nat k' < length m" using f(1,2) assms(1) by linarith
  moreover have "int (nat k') = k'" using f(1) by simp
  ultimately show ?thesis using f(3) k' by metis
qed

lemma ep_config_ret:
  "snd (ep_config M d usb_ep bam_pipe producer disable_wb internal_mem ioc) =
     (case msm_dbm_find_matching_dbm_ep d usb_ep of
        Inl e \<Rightarrow> Inl Invalid_usb_ep_index
      | Inr dbm_ep \<Rightarrow>
          if dbm_ep = 7 \<and> producer then Inl Last_dbm_ep_cant_be_out_ep else Inr dbm_ep)"
  by (simp add: ep_config_def Let_def split: sum.splits)

lemma ep_unconfig_ret:
  "snd (ep_unconfig M d usb_ep) =
     (case msm_dbm_find_matching_dbm_ep d usb_ep of
        Inl e \<Rightarrow> Inl Invalid_usb_ep_index
      | Inr dbm_ep \<Rightarrow> Inr 0)"
  by (simp add: ep_unconfig_def Let_def case_prod_unfold split: sum.splits)

lemma ep_config_fail: 
  "snd (ep_config M d usb_ep bam_pipe producer disable_wb internal_mem ioc) = Inl e \<Longrightarrow>
   fst (ep_config M d usb_ep bam_pipe producer disable_wb internal_mem ioc) = d"
  by (simp add: ep_config_def Let_def split: sum.splits if_splits)

lemma ep_unconfig_fail: 
  "snd (ep_unconfig M d usb_ep) = Inl e \<Longrightarrow> fst (ep_unconfig M d usb_ep) = d"
  by (simp add: ep_unconfig_def Let_def case_prod_unfold split: sum.splits)

lemma dbm_data_ok_probe: "dbm_data_ok (msm_dbm_probe r)"
  by (simp add: dbm_data_ok_def msm_dbm_probe_def)

lemma find_probe_zero: "msm_dbm_find_matching_dbm_ep (msm_dbm_probe r) 0 = Inr 0"
  by (simp add: msm_dbm_find_matching_dbm_ep_def msm_dbm_probe_def DBM_1_5_NUM_EP_def
      find_loop.simps[of 8 _ 0 0])

text \<open>
  C1 (amended). When the lookup resolves to a slot other than 7, \<open>ep_config\<close> succeeds
  in either direction and returns the slot. When it resolves to slot 7, \<open>ep_config\<close>
  with the producer flag set fails with \<open>-ENODEV\<close>, and with the producer flag clear
  it succeeds and returns 7.
\<close>

theorem ep_config_last_slot_direction:
  assumes "msm_dbm_find_matching_dbm_ep d usb_ep = Inr dbm_ep"
  shows "(dbm_ep \<noteq> 7 \<longrightarrow>
            snd (ep_config M d usb_ep bam_pipe producer disable_wb internal_mem ioc) =
              Inr dbm_ep) \<and>
         (dbm_ep = 7 \<longrightarrow>
            snd (ep_config M d usb_ep bam_pipe True disable_wb internal_mem ioc) =
              Inl Last_dbm_ep_cant_be_out_ep \<and>
            ret_val (snd (ep_config M d usb_ep bam_pipe True disable_wb internal_mem ioc)) =
              - ENODEV \<and>
            snd (ep_config M d usb_ep bam_pipe False disable_wb internal_mem ioc) = Inr 7)"
  using assms by (simp add: ep_config_ret)

theorem ep_config_last_slot_direction_witness:
  "msm_dbm_find_matching_dbm_ep ep3_on_slot2 3 = Inr 2 \<and>
   msm_dbm_find_matching_dbm_ep ep5_on_slot7 5 = Inr 7 \<and>
   snd (ep_config sample_masks ep3_on_slot2 3 0 True False False False) = Inr 2 \<and>
   snd (ep_config sample_masks ep3_on_slot2 3 0 False False False False) = Inr 2 \<and>
   snd (ep_config sample_masks ep5_on_slot7 5 0 True False False False) =
     Inl Last_dbm_ep_cant_be_out_ep \<and>
   snd (ep_config sample_masks ep5_on_slot7 5 0 False False False False) = Inr 7"
proof -
  have h2: "msm_dbm_find_matching_dbm_ep ep3_on_slot2 3 = Inr 2" by code_simp
  have h7: "msm_dbm_find_matching_dbm_ep ep5_on_slot7 5 = Inr 7" by code_simp
  from ep_config_last_slot_direction[OF h2, of sample_masks 0 True False False False]
    ep_config_last_slot_direction[OF h2, of sample_masks 0 False False False False]
    ep_config_last_slot_direction[OF h7, of sample_masks 0 False False False]
    h2 h7
  show ?thesis by simp
qed

text \<open>
  C1 as stated fails: with endpoint 5 bound to slot 7, \<open>ep_config\<close> as consumer
  (producer flag clear) succeeds and returns 7, and as producer it fails.
\<close>

theorem ep_config_slot7_consumer_succeeds:
  "msm_dbm_find_matching_dbm_ep ep5_on_slot7 5 = Inr 7 \<and>
   snd (ep_config sample_masks ep5_on_slot7 5 0 False False False False) = Inr 7 \<and>
   snd (ep_config sample_masks ep5_on_slot7 5 0 True False False False) =
     Inl Last_dbm_ep_cant_be_out_ep"
  by code_simp

text \<open>
  C9. The lookup of logical endpoint 0 matches the first table entry that is 0, that is
  the first unassigned slot. So whenever a slot is unassigned, \<open>ep_config\<close> and
  \<open>ep_unconfig\<close> with \<open>usb_ep = 0\<close> do not take the not-found branch:
  \<open>ep_unconfig\<close> returns 0 and \<open>ep_config\<close> goes on to the direction check of
  that slot. On a freshly probed device endpoint 0 resolves to slot 0.
\<close>

theorem usb_ep_zero_resolves_to_unassigned_slot:
  "(dbm_data_ok d \<and> 0 \<in> set (ep_num_mapping d) \<longrightarrow>
      (\<exists>i < DBM_1_5_NUM_EP.
          ep_num_mapping d ! i = 0 \<and> (\<forall>j<i. ep_num_mapping d ! j \<noteq> 0) \<and>
          msm_dbm_find_matching_dbm_ep d 0 = Inr (int i) \<and>
          snd (ep_config M d 0 bam_pipe producer disable_wb internal_mem ioc) =
            (if i = 7 \<and> producer then Inl Last_dbm_ep_cant_be_out_ep else Inr (int i)) \<and>
          snd (ep_unconfig M d 0) = Inr 0)) \<and>
   msm_dbm_find_matching_dbm_ep (msm_dbm_probe r) 0 = Inr 0 \<and>
   snd (ep_config M (msm_dbm_probe r) 0 bam_pipe producer disable_wb internal_mem ioc) = Inr 0 \<and>
   snd (ep_unconfig M (msm_dbm_probe r) 0) = Inr 0"
proof -
  have a: "\<exists>i < DBM_1_5_NUM_EP.
          ep_num_mapping d ! i = 0 \<and> (\<forall>j<i. ep_num_mapping d ! j \<noteq> 0) \<and>
          msm_dbm_find_matching_dbm_ep d 0 = Inr (int i) \<and>
          snd (ep_config M d 0 bam_pipe producer disable_wb internal_mem ioc) =
            (if i = 7 \<and> producer then Inl Last_dbm_ep_cant_be_out_ep else Inr (int i)) \<and>
          snd (ep_unconfig M d 0) = Inr 0"
    if ok: "dbm_data_ok d" and z: "0 \<in> set (ep_num_mapping d)"
  proof -
    from ok have n: "dbm_num_eps d = int (length (ep_num_mapping d))"
      and l: "length (ep_num_mapping d) = DBM_1_5_NUM_EP"
      by (simp_all add: dbm_data_ok_def)
    from find_loop_first[OF n z] obtain i where i: "i < length (ep_num_mapping d)"
      "ep_num_mapping d ! i = 0" "\<forall>j<i. ep_num_mapping d ! j \<noteq> 0"
      "msm_dbm_find_matching_dbm_ep d 0 = Inr (int i)"
      unfolding msm_dbm_find_matching_dbm_ep_def by blast
    have "snd (ep_config M d 0 bam_pipe producer disable_wb internal_mem ioc) =
            (if i = 7 \<and> producer then Inl Last_dbm_ep_cant_be_out_ep else Inr (int i))"
      using i(4) by (simp add: ep_config_ret)
    moreover have "snd (ep_unconfig M d 0) = Inr 0"
      using i(4) by (simp add: ep_unconfig_ret)
    ultimately show ?thesis using i l by metis
  qed
  have b: "snd (ep_config M (msm_dbm_probe r) 0 bam_pipe producer disable_wb internal_mem ioc) =
             Inr 0"
    by (simp add: ep_config_ret find_probe_zero)
  have c: "snd (ep_unconfig M (msm_dbm_probe r) 0) = Inr 0"
    by (simp add: ep_unconfig_ret find_probe_zero)
  from a b c find_probe_zero show ?thesis by blast
qed

theorem usb_ep_zero_resolves_to_unassigned_slot_witness:
  "dbm_data_ok ep1_on_slot0 \<and> 0 \<in> set (ep_num_mapping ep1_on_slot0) \<and>
   (\<exists>i < DBM_1_5_NUM_EP.
      ep_num_mapping ep1_on_slot0 ! i = 0 \<and> (\<forall>j<i. ep_num_mapping ep1_on_slot0 ! j \<noteq> 0) \<and>
      msm_dbm_find_matching_dbm_ep ep1_on_slot0 0 = Inr (int i) \<and>
      snd (ep_config sample_masks ep1_on_slot0 0 0 True False False False) =
        (if i = 7 \<and> True then Inl Last_dbm_ep_cant_be_out_ep else Inr (int i)) \<and>
      snd (ep_unconfig sample_masks ep1_on_slot0 0) = Inr 0) \<and>
   msm_dbm_find_matching_dbm_ep ep1_on_slot0 0 = Inr 1"
proof -
  have h1: "dbm_data_ok ep1_on_slot0" by code_simp
  have h2: "0 \<in> set (ep_num_mapping ep1_on_slot0)" by code_simp
  have f: "msm_dbm_find_matching_dbm_ep ep1_on_slot0 0 = Inr 1" by code_simp
  from usb_ep_zero_resolves_to_unassigned_slot[of ep1_on_slot0 sample_masks 0 True False False
      False zero_regs] h1 h2 f
  show ?thesis by blast
qed

subsection \<open>Order and completeness of register writes\<close>

lemma uint_word_of_int_u8_le: "0 \<le> k \<Longrightarrow> uint (word_of_int k :: u8) \<le> k"
  by (simp add: uint_word_of_int_eq take_bit_int_less_eq_self_iff)

lemma dbm_ep_soft_reset_ok:
  assumes "0 \<le> k" "k < dbm_num_eps d"
  shows "dbm_ep_soft_reset M d (word_of_int k) b =
           (msm_dbm_write_reg_field d DBM_SOFT_RESET
              (DBM_SFT_RST_EPS_MASK M AND push_bit (unat (word_of_int k :: u8)) 1)
              (bool_u32 b), Inr 0)"
proof -
  from uint_word_of_int_u8_le[OF assms(1)] assms(2)
  have "\<not> dbm_num_eps d \<le> uint (word_of_int k :: u8)" by linarith
  then show ?thesis by (simp add: dbm_ep_soft_reset_def bool_u32_def)
qed

lemma find_in_range:
  "msm_dbm_find_matching_dbm_ep d usb_ep = Inr i \<Longrightarrow> 0 \<le> i \<and> i < dbm_num_eps d"
  unfolding msm_dbm_find_matching_dbm_ep_def by (drule find_loop_Inr) simp

lemma ep_config_ok_state:
  assumes f: "msm_dbm_find_matching_dbm_ep d usb_ep = Inr i" and g: "\<not> (i = 7 \<and> producer)"
  shows "fst (ep_config M d usb_ep bam_pipe producer disable_wb internal_mem ioc) =
     msm_dbm_write_reg_field
       (msm_dbm_write_reg_field
          (msm_dbm_write_reg_field
             (msm_dbm_write_reg_field
                (msm_dbm_write_reg_field d DBM_SOFT_RESET
                   (DBM_SFT_RST_EPS_MASK M AND push_bit (unat (word_of_int i :: u8)) 1) 0)
                DBM_DBG_CNFG (DBM_ENABLE_IOC_MASK M AND push_bit (nat i) 1) (bool_u32 ioc))
             (DBM_EP_CFG i) (DBM_PRODUCER M OR DBM_DISABLE_WB M OR DBM_INT_RAM_ACC M)
             (drop_bit 8 ((if producer then DBM_PRODUCER M else 0) OR
                          (if disable_wb then DBM_DISABLE_WB M else 0))))
          (DBM_EP_CFG i) (USB3_EPNUM M) (ucast usb_ep))
       (DBM_EP_CFG i) (DBM_EN_EP M) 1"
proof -
  from find_in_range[OF f] have r: "0 \<le> i" "i < dbm_num_eps d" by simp_all
  from g have g': "i = 7 \<longrightarrow> \<not> producer" by simp
  show ?thesis
    using g' by (auto simp: ep_config_def f Let_def dbm_ep_soft_reset_ok[OF r] bool_u32_def)
qed

lemma ep_cfg_offset_small:
  assumes "0 \<le> i" "i < 8"
  shows "DBM_EP_CFG i \<noteq> DBM_SOFT_RESET \<and> DBM_EP_CFG i \<noteq> DBM_DBG_CNFG"
proof -
  have u: "uint (word_of_int (0x00 + 4 * i) :: u32) = 0x00 + 4 * i"
    using assms by (intro uint_word_of_int_small) simp_all
  have "uint (DBM_EP_CFG i) < 32" unfolding DBM_EP_CFG_def using u assms by linarith
  moreover have "uint DBM_SOFT_RESET = 0x20C" "uint DBM_DBG_CNFG = 0x208"
    by (simp_all add: DBM_SOFT_RESET_def DBM_DBG_CNFG_def)
  ultimately show ?thesis by auto
qed

lemma bit_field_word_lowest:
  fixes m :: u32
  assumes "m \<noteq> 0"
  shows "bit (field_word c m 1) (find_first_bit m 32)"
proof -
  from find_first_bit_nonzero[OF assms] have "find_first_bit m 32 < 32" by blast
  then show ?thesis by (simp add: field_word_def bit_simps)
qed

text \<open>
  C7 (amended). A successful \<open>ep_config\<close> makes five register writes. The last three
  go to the slot's configuration register: first the flags through the mask of the
  three flag bits, then the endpoint number through \<open>USB3_EPNUM\<close>, and last the value 1
  through \<open>DBM_EN_EP\<close>, which sets the enable bit. Nothing is written after it. The
  two earlier writes leave the enable bit as it was before the call (for a layout whose
  enable bit, endpoint-number field and flag bits do not overlap, and values that fit
  their fields): a slot whose enable bit was clear shows it clear until the last write,
  and a slot that was already enabled stays enabled while the flags and the endpoint
  number are rewritten.
\<close>

theorem ep_config_enable_written_last:
  assumes "dbm_data_ok d"
    and "snd (ep_config M d usb_ep bam_pipe producer disable_wb internal_mem ioc) = Inr dbm_ep"
    and "DBM_EN_EP M \<noteq> 0"
  shows "\<exists>r1 r2.
    (let cfg = DBM_EP_CFG dbm_ep;
         c1 = field_word (regs d cfg) (flags_mask M) (flags_val M producer disable_wb);
         c2 = field_word c1 (USB3_EPNUM M) (ucast usb_ep);
         c3 = field_word c2 (DBM_EN_EP M) 1
     in trace (fst (ep_config M d usb_ep bam_pipe producer disable_wb internal_mem ioc)) =
          trace d @
          [Io_read DBM_SOFT_RESET, Io_write DBM_SOFT_RESET r1,
           Io_read DBM_DBG_CNFG, Io_write DBM_DBG_CNFG r2,
           Io_read cfg, Io_write cfg c1,
           Io_read cfg, Io_write cfg c2,
           Io_read cfg, Io_write cfg c3] \<and>
        bit c3 (find_first_bit (DBM_EN_EP M) 32) \<and>
        regs (fst (ep_config M d usb_ep bam_pipe producer disable_wb internal_mem ioc)) cfg =
          c3 \<and>
        (ep_cfg_layout_ok M \<and> fits (flags_mask M) (flags_val M producer disable_wb) \<and>
         fits (USB3_EPNUM M) (ucast usb_ep) \<longrightarrow>
           c1 AND DBM_EN_EP M = regs d cfg AND DBM_EN_EP M \<and>
           c2 AND DBM_EN_EP M = regs d cfg AND DBM_EN_EP M))"
proof -
  from assms(2) obtain i where f: "msm_dbm_find_matching_dbm_ep d usb_ep = Inr i"
    by (auto simp: ep_config_ret split: sum.splits)
  with assms(2) have g: "\<not> (i = 7 \<and> producer)" and e: "dbm_ep = i"
    by (auto simp: ep_config_ret split: if_splits)
  from find_in_range[OF f] assms(1) have r: "0 \<le> i" "i < 8"
    by (simp_all add: dbm_data_ok_def DBM_1_5_NUM_EP_def)
  note off = ep_cfg_offset_small[OF r]
  note st = ep_config_ok_state[OF f g, of M bam_pipe disable_wb internal_mem ioc,
      folded flags_mask_def flags_val_def]
  let ?cfg = "DBM_EP_CFG i"
  let ?c1 = "field_word (regs d ?cfg) (flags_mask M) (flags_val M producer disable_wb)"
  let ?c2 = "field_word ?c1 (USB3_EPNUM M) (ucast usb_ep)"
  let ?c3 = "field_word ?c2 (DBM_EN_EP M) 1"
  let ?d' = "fst (ep_config M d usb_ep bam_pipe producer disable_wb internal_mem ioc)"
  have tr: "\<exists>r1 r2. trace ?d' =
          trace d @
          [Io_read DBM_SOFT_RESET, Io_write DBM_SOFT_RESET r1,
           Io_read DBM_DBG_CNFG, Io_write DBM_DBG_CNFG r2,
           Io_read ?cfg, Io_write ?cfg ?c1,
           Io_read ?cfg, Io_write ?cfg ?c2,
           Io_read ?cfg, Io_write ?cfg ?c3]"
    unfolding st using off by (simp add: write_reg_field_eq)
  have rg: "regs ?d' ?cfg = ?c3"
    unfolding st using off by (simp add: write_reg_field_eq)
  have en: "bit ?c3 (find_first_bit (DBM_EN_EP M) 32)"
    by (rule bit_field_word_lowest[OF assms(3)])
  have keep: "?c1 AND DBM_EN_EP M = regs d ?cfg AND DBM_EN_EP M \<and>
              ?c2 AND DBM_EN_EP M = regs d ?cfg AND DBM_EN_EP M"
    if h: "ep_cfg_layout_ok M \<and> fits (flags_mask M) (flags_val M producer disable_wb) \<and>
           fits (USB3_EPNUM M) (ucast usb_ep)"
  proof -
    from h have d1: "flags_mask M AND DBM_EN_EP M = 0" and d2: "USB3_EPNUM M AND DBM_EN_EP M = 0"
      by (simp_all add: ep_cfg_layout_ok_def and.commute)
    from h have f1: "push_bit (find_first_bit (flags_mask M) 32)
                       (flags_val M producer disable_wb) AND NOT (flags_mask M) = 0"
      and f2: "push_bit (find_first_bit (USB3_EPNUM M) 32) (ucast usb_ep) AND
                 NOT (USB3_EPNUM M) = 0"
      by (simp_all add: fits_def)
    have a: "?c1 AND DBM_EN_EP M = regs d ?cfg AND DBM_EN_EP M"
      by (rule field_word_other[OF d1 f1])
    have "?c2 AND DBM_EN_EP M = ?c1 AND DBM_EN_EP M"
      by (rule field_word_other[OF d2 f2])
    with a show ?thesis by simp
  qed
  from tr rg en keep show ?thesis
    unfolding e Let_def by blast
qed

theorem ep_config_enable_written_last_witness:
  "dbm_data_ok ep3_on_slot2 \<and>
   snd (ep_config sample_masks ep3_on_slot2 3 0 True True False True) = Inr 2 \<and>
   DBM_EN_EP sample_masks \<noteq> 0 \<and>
   ep_cfg_layout_ok sample_masks \<and>
   fits (flags_mask sample_masks) (flags_val sample_masks True True) \<and>
   fits (USB3_EPNUM sample_masks) (ucast (3 :: u8)) \<and>
   (\<exists>r1 r2. trace (fst (ep_config sample_masks ep3_on_slot2 3 0 True True False True)) =
      trace ep3_on_slot2 @
      [Io_read DBM_SOFT_RESET, Io_write DBM_SOFT_RESET r1,
       Io_read DBM_DBG_CNFG, Io_write DBM_DBG_CNFG r2,
       Io_read 8, Io_write 8 0x300, Io_read 8, Io_write 8 0x306,
       Io_read 8, Io_write 8 0x307]) \<and>
   regs ep3_on_slot2 8 AND DBM_EN_EP sample_masks = 0 \<and>
   (0x300 :: u32) AND DBM_EN_EP sample_masks = regs ep3_on_slot2 8 AND DBM_EN_EP sample_masks \<and>
   (0x306 :: u32) AND DBM_EN_EP sample_masks = regs ep3_on_slot2 8 AND DBM_EN_EP sample_masks"
proof -
  have h1: "dbm_data_ok ep3_on_slot2" by code_simp
  have h2: "snd (ep_config sample_masks ep3_on_slot2 3 0 True True False True) = Inr 2"
    by code_simp
  have h3: "DBM_EN_EP sample_masks \<noteq> 0" by code_simp
  have h4: "ep_cfg_layout_ok sample_masks" by code_simp
  have h5: "fits (flags_mask sample_masks) (flags_val sample_masks True True)" by code_simp
  have h6: "fits (USB3_EPNUM sample_masks) (ucast (3 :: u8))" by code_simp
  have c: "DBM_EP_CFG 2 = 8" by code_simp
  have z: "regs ep3_on_slot2 8 AND DBM_EN_EP sample_masks = 0" by code_simp
  have v1: "field_word (regs ep3_on_slot2 8) (flags_mask sample_masks)
              (flags_val sample_masks True True) = 0x300"
    by code_simp
  have v2: "field_word 0x300 (USB3_EPNUM sample_masks) (ucast (3 :: u8)) = 0x306"
    by code_simp
  have v3: "field_word 0x306 (DBM_EN_EP sample_masks) 1 = 0x307"
    by code_simp
  from ep_config_enable_written_last[OF h1 h2 h3]
  have "\<exists>r1 r2.
      trace (fst (ep_config sample_masks ep3_on_slot2 3 0 True True False True)) =
        trace ep3_on_slot2 @
        [Io_read DBM_SOFT_RESET, Io_write DBM_SOFT_RESET r1,
         Io_read DBM_DBG_CNFG, Io_write DBM_DBG_CNFG r2,
         Io_read 8, Io_write 8 0x300, Io_read 8, Io_write 8 0x306,
         Io_read 8, Io_write 8 0x307] \<and>
      (ep_cfg_layout_ok sample_masks \<and>
       fits (flags_mask sample_masks) (flags_val sample_masks True True) \<and>
       fits (USB3_EPNUM sample_masks) (ucast (3 :: u8)) \<longrightarrow>
         (0x300 :: u32) AND DBM_EN_EP sample_masks =
           regs ep3_on_slot2 8 AND DBM_EN_EP sample_masks \<and>
         (0x306 :: u32) AND DBM_EN_EP sample_masks =
           regs ep3_on_slot2 8 AND DBM_EN_EP sample_masks)"
    unfolding Let_def c v1 v2 v3 by blast
  with h1 h2 h3 h4 h5 h6 z show ?thesis by blast
qed

text \<open>
  C7 as stated fails in its last part: on slot 2, enabled for endpoint 3 and then bound
  to endpoint 4, \<open>ep_config\<close> for endpoint 4 writes 7, 9 and 9 to the configuration
  register. The enable bit is set in the first of them, where the endpoint-number field
  still holds endpoint 3.
\<close>

theorem ep_config_enabled_slot_stays_enabled:
  "dbm_data_ok ep4_rebound_slot2 \<and>
   regs ep4_rebound_slot2 8 = 0x307 \<and>
   snd (ep_config sample_masks ep4_rebound_slot2 4 0 False False False False) = Inr 2 \<and>
   drop (length (trace ep4_rebound_slot2))
     (trace (fst (ep_config sample_masks ep4_rebound_slot2 4 0 False False False False))) =
     [Io_read 0x20C, Io_write 0x20C 0, Io_read 0x208, Io_write 0x208 0,
      Io_read 8, Io_write 8 7, Io_read 8, Io_write 8 9, Io_read 8, Io_write 8 9] \<and>
   (7 :: u32) AND DBM_EN_EP sample_masks = 1 \<and>
   (7 :: u32) AND USB3_EPNUM sample_masks = push_bit 1 3 \<and>
   (9 :: u32) AND USB3_EPNUM sample_masks = push_bit 1 4"
  by code_simp

lemma io_writes_append: "io_writes (a @ b) = io_writes a + io_writes b"
  by (simp add: io_writes_def)

lemma ep_config_ok_writes:
  assumes "snd (ep_config M d usb_ep bam_pipe producer disable_wb internal_mem ioc) = Inr v"
  shows "io_writes (trace (fst (ep_config M d usb_ep bam_pipe producer disable_wb internal_mem
           ioc))) = io_writes (trace d) + 5"
proof -
  from assms obtain i where f: "msm_dbm_find_matching_dbm_ep d usb_ep = Inr i"
    by (auto simp: ep_config_ret split: sum.splits)
  with assms have g: "\<not> (i = 7 \<and> producer)"
    by (auto simp: ep_config_ret split: if_splits)
  show ?thesis
    unfolding ep_config_ok_state[OF f g]
    by (simp add: write_reg_field_eq io_writes_def)
qed

lemma ep_unconfig_ok_writes:
  assumes "snd (ep_unconfig M d usb_ep) = Inr v"
  shows "io_writes (trace (fst (ep_unconfig M d usb_ep))) = io_writes (trace d) + 3"
proof -
  from assms obtain i where f: "msm_dbm_find_matching_dbm_ep d usb_ep = Inr i"
    by (auto simp: ep_unconfig_ret split: sum.splits)
  from find_in_range[OF f] have r: "0 \<le> i" "i < dbm_num_eps d" by simp_all
  from uint_word_of_int_u8_le[OF r(1)] r(2)
  have n: "\<not> dbm_num_eps d \<le> uint (word_of_int i :: u8)" by linarith
  show ?thesis
    using n
    by (simp add: ep_unconfig_def f Let_def case_prod_unfold msm_dbm_read_reg_def ioread32_def
        write_reg_eq write_reg_field_eq ep_num_mapping_store_def udelay_def
        dbm_ep_soft_reset_def io_writes_def)
qed

lemma dbm_op_fail: "snd (dbm_op M d c) = Inl e \<Longrightarrow> fst (dbm_op M d c) = d"
proof (cases c)
  case (Ep_config usb_ep bam_pipe producer disable_wb internal_mem ioc)
  assume "snd (dbm_op M d c) = Inl e"
  with Ep_config show ?thesis by (simp add: ep_config_fail)
next
  case (Ep_unconfig usb_ep)
  assume "snd (dbm_op M d c) = Inl e"
  with Ep_unconfig show ?thesis by (simp add: ep_unconfig_fail)
next
  case (Event_buffer_config addr_lo addr_hi sz)
  assume "snd (dbm_op M d c) = Inl e"
  with Event_buffer_config show ?thesis
    by (simp add: event_buffer_config_def Let_def split: if_splits)
next
  case (Data_fifo_config dep_num addr sz dst_pipe_idx)
  assume "snd (dbm_op M d c) = Inl e"
  with Data_fifo_config show ?thesis by (simp add: data_fifo_config_def Let_def)
qed (simp_all add: soft_reset_def)

lemma dbm_op_ok_writes:
  "snd (dbm_op M d c) = Inr v \<Longrightarrow>
   io_writes (trace (fst (dbm_op M d c))) = io_writes (trace d) + call_io_writes c"
proof (cases c)
  case (Ep_config usb_ep bam_pipe producer disable_wb internal_mem ioc)
  assume "snd (dbm_op M d c) = Inr v"
  with Ep_config show ?thesis by (simp add: ep_config_ok_writes)
next
  case (Ep_unconfig usb_ep)
  assume "snd (dbm_op M d c) = Inr v"
  with Ep_unconfig show ?thesis by (simp add: ep_unconfig_ok_writes)
next
  case (Event_buffer_config addr_lo addr_hi sz)
  assume "snd (dbm_op M d c) = Inr v"
  with Event_buffer_config show ?thesis
    by (simp add: event_buffer_config_def Let_def write_reg_eq write_reg_field_eq io_writes_def
        split: if_splits)
next
  case (Data_fifo_config dep_num addr sz dst_pipe_idx)
  then show ?thesis
    by (simp add: data_fifo_config_def Let_def write_reg_eq write_reg_field_eq io_writes_def
        store_trace)
next
  case (Soft_reset reset)
  then show ?thesis by (simp add: soft_reset_def write_reg_field_eq io_writes_def)
next
  case Get_num_of_eps_configured
  then show ?thesis by simp
next
  case (Set_speed speed)
  then show ?thesis by (simp add: set_speed_def write_reg_eq io_writes_def)
next
  case Enable
  then show ?thesis by (simp add: enable_def Let_def write_reg_eq io_writes_def)
qed

text \<open>
  C8. An operation that fails returns the context as it was: no register is read or
  written and the mapping table is untouched. An operation that succeeds has made all
  its register writes. \<open>event_buffer_config\<close> with a negative size, such as -1, fails
  with \<open>-EINVAL\<close> before any write, and so does \<open>ep_config\<close> when the logical
  endpoint is not found or when slot 7 is asked for as producer.
\<close>

theorem failing_call_writes_nothing:
  "(snd (dbm_op M d c) = Inl e \<longrightarrow> fst (dbm_op M d c) = d) \<and>
   (snd (dbm_op M d c) = Inr v \<longrightarrow>
      io_writes (trace (fst (dbm_op M d c))) = io_writes (trace d) + call_io_writes c) \<and>
   (sz <s 0 \<longrightarrow> event_buffer_config M d addr_lo addr_hi sz = (d, Inl Invalid_size)) \<and>
   event_buffer_config M d addr_lo addr_hi (- 1) = (d, Inl Invalid_size) \<and>
   ret_val (snd (event_buffer_config M d addr_lo addr_hi (- 1))) = - EINVAL \<and>
   (msm_dbm_find_matching_dbm_ep d usb_ep = Inl e' \<longrightarrow>
      ep_config M d usb_ep bam_pipe producer disable_wb internal_mem ioc =
        (d, Inl Invalid_usb_ep_index)) \<and>
   (msm_dbm_find_matching_dbm_ep d usb_ep = Inr 7 \<longrightarrow>
      ep_config M d usb_ep bam_pipe True disable_wb internal_mem ioc =
        (d, Inl Last_dbm_ep_cant_be_out_ep))"
  using dbm_op_fail[of M d c e] dbm_op_ok_writes[of M d c v]
  by (simp add: event_buffer_config_def ep_config_def)

theorem failing_call_writes_nothing_witness:
  "snd (dbm_op sample_masks ep5_on_slot7 (Event_buffer_config 0 0 (- 1))) = Inl Invalid_size \<and>
   fst (dbm_op sample_masks ep5_on_slot7 (Event_buffer_config 0 0 (- 1))) = ep5_on_slot7 \<and>
   snd (dbm_op sample_masks ep3_on_slot2 (Ep_config 3 0 True False False False)) = Inr 2 \<and>
   io_writes (trace (fst (dbm_op sample_masks ep3_on_slot2
      (Ep_config 3 0 True False False False)))) = io_writes (trace ep3_on_slot2) + 5 \<and>
   (- 1 :: 32 word) <s 0 \<and>
   msm_dbm_find_matching_dbm_ep ep5_on_slot7 4 = Inl Not_found \<and>
   ep_config sample_masks ep5_on_slot7 4 0 True False False False =
     (ep5_on_slot7, Inl Invalid_usb_ep_index) \<and>
   msm_dbm_find_matching_dbm_ep ep5_on_slot7 5 = Inr 7 \<and>
   ep_config sample_masks ep5_on_slot7 5 0 True False False False =
     (ep5_on_slot7, Inl Last_dbm_ep_cant_be_out_ep)"
proof -
  have h1: "snd (dbm_op sample_masks ep5_on_slot7 (Event_buffer_config 0 0 (- 1))) =
              Inl Invalid_size"
    by code_simp
  have h2: "snd (dbm_op sample_masks ep3_on_slot2 (Ep_config 3 0 True False False False)) =
              Inr 2"
    by code_simp
  have h3: "(- 1 :: 32 word) <s 0" by simp
  have h4: "msm_dbm_find_matching_dbm_ep ep5_on_slot7 4 = Inl Not_found" by code_simp
  have h5: "msm_dbm_find_matching_dbm_ep ep5_on_slot7 5 = Inr 7" by code_simp
  from failing_call_writes_nothing[of sample_masks ep5_on_slot7 "Event_buffer_config 0 0 (- 1)"
      Invalid_size 0 "- 1" 0 0 4 Not_found 0 True False False False]
    failing_call_writes_nothing[of sample_masks ep3_on_slot2
      "Ep_config 3 0 True False False False" Invalid_size 2 "- 1" 0 0 4 Not_found 0 True False
      False False]
    failing_call_writes_nothing[of sample_masks ep5_on_slot7 "Event_buffer_config 0 0 (- 1)"
      Invalid_size 0 "- 1" 0 0 5 Not_found 0 True False False False]
    h1 h2 h3 h4 h5
  show ?thesis by simp
qed

subsection \<open>Uniqueness of endpoint numbers in the mapping table\<close>

lemma unique_update_zero:
  "mapping_unique m \<Longrightarrow> mapping_unique (m[i := 0])"
  unfolding mapping_unique_def
proof (induction m arbitrary: i)
  case Nil
  then show ?case by simp
next
  case (Cons x xs)
  show ?case
  proof (cases i)
    case 0
    with Cons.prems show ?thesis by (simp split: if_splits)
  next
    case (Suc j)
    from Cons.prems have d: "distinct (filter (\<lambda>x. x \<noteq> 0) xs)"
      by (simp split: if_splits)
    have s: "set (xs[j := 0]) \<subseteq> insert 0 (set xs)" by (rule set_update_subset_insert)
    from Cons.prems have "x \<noteq> 0 \<Longrightarrow> x \<notin> set xs" by simp
    with s have "x \<noteq> 0 \<Longrightarrow> x \<notin> set (xs[j := 0])" by auto
    with Cons.IH[OF d, of j] Suc show ?thesis by simp
  qed
qed

lemma unique_update_new:
  "mapping_unique m \<Longrightarrow> v \<notin> set (m[i := 0]) \<Longrightarrow> mapping_unique (m[i := v])"
  unfolding mapping_unique_def
proof (induction m arbitrary: i)
  case Nil
  then show ?case by simp
next
  case (Cons x xs)
  from Cons.prems(1) have d: "distinct (filter (\<lambda>x. x \<noteq> 0) xs)"
    by (simp split: if_splits)
  show ?case
  proof (cases i)
    case 0
    with Cons.prems d show ?thesis by simp
  next
    case (Suc j)
    with Cons.prems(2) have v: "v \<noteq> x" "v \<notin> set (xs[j := 0])" by simp_all
    have s: "set (xs[j := v]) \<subseteq> insert v (set xs)" by (rule set_update_subset_insert)
    from Cons.prems(1) have "x \<noteq> 0 \<Longrightarrow> x \<notin> set xs" by simp
    with s v(1) have "x \<noteq> 0 \<Longrightarrow> x \<notin> set (xs[j := v])" by auto
    with Cons.IH[OF d v(2)] Suc show ?thesis by simp
  qed
qed

lemma ep_config_mapping:
  "ep_num_mapping (fst (ep_config M d usb_ep bam_pipe producer disable_wb internal_mem ioc)) =
     ep_num_mapping d"
  by (simp add: ep_config_def Let_def write_reg_field_eq dbm_ep_soft_reset_def
      split: sum.splits)

lemma ep_unconfig_mapping:
  "ep_num_mapping (fst (ep_unconfig M d usb_ep)) =
     (case msm_dbm_find_matching_dbm_ep d usb_ep of
        Inl e \<Rightarrow> ep_num_mapping d
      | Inr i \<Rightarrow> if nat i < DBM_1_5_NUM_EP then (ep_num_mapping d)[nat i := 0]
                 else ep_num_mapping d)"
  by (simp add: ep_unconfig_def Let_def case_prod_unfold msm_dbm_read_reg_def ioread32_def
      write_reg_eq write_reg_field_eq ep_num_mapping_store_def udelay_def
      dbm_ep_soft_reset_def split: sum.splits)

lemma data_fifo_config_mapping:
  "ep_num_mapping (fst (data_fifo_config M d dep_num addr sz dst_pipe_idx)) =
     (if unat dst_pipe_idx < DBM_1_5_NUM_EP
      then (ep_num_mapping d)[unat dst_pipe_idx := dep_num] else ep_num_mapping d)"
  by (simp add: data_fifo_config_def Let_def write_reg_eq write_reg_field_eq store_mapping)

lemma dbm_op_unique:
  assumes "mapping_unique (ep_num_mapping d)" and "bind_ok d c"
  shows "mapping_unique (ep_num_mapping (fst (dbm_op M d c)))"
proof (cases c)
  case (Ep_config usb_ep bam_pipe producer disable_wb internal_mem ioc)
  with assms(1) show ?thesis by (simp add: ep_config_mapping)
next
  case (Ep_unconfig usb_ep)
  with assms(1) show ?thesis
    by (simp add: ep_unconfig_mapping unique_update_zero split: sum.splits)
next
  case (Event_buffer_config addr_lo addr_hi sz)
  with assms(1) show ?thesis
    by (simp add: event_buffer_config_def Let_def write_reg_eq write_reg_field_eq)
next
  case (Data_fifo_config dep_num addr sz dst_pipe_idx)
  with assms(2) have b: "unat dst_pipe_idx < DBM_1_5_NUM_EP"
    "dep_num = 0 \<or> dep_num \<notin> set ((ep_num_mapping d)[unat dst_pipe_idx := 0])"
    by simp_all
  from b(2) assms(1)
  have "mapping_unique ((ep_num_mapping d)[unat dst_pipe_idx := dep_num])"
    by (auto intro: unique_update_zero unique_update_new)
  with Data_fifo_config b(1) show ?thesis by (simp add: data_fifo_config_mapping)
next
  case (Soft_reset reset)
  with assms(1) show ?thesis by (simp add: soft_reset_def write_reg_field_eq)
next
  case Get_num_of_eps_configured
  with assms(1) show ?thesis by simp
next
  case (Set_speed speed)
  with assms(1) show ?thesis by (simp add: set_speed_def write_reg_eq)
next
  case Enable
  with assms(1) show ?thesis by (simp add: enable_def Let_def write_reg_eq)
qed

lemma dbm_run_unique:
  "mapping_unique (ep_num_mapping d) \<Longrightarrow> calls_ok M d cs \<Longrightarrow>
   mapping_unique (ep_num_mapping (dbm_run M d cs))"
proof (induction cs arbitrary: d)
  case Nil
  then show ?case by simp
next
  case (Cons c cs)
  from Cons.prems have b: "bind_ok d c" and r: "calls_ok M (fst (dbm_op M d c)) cs"
    by simp_all
  from dbm_op_unique[OF Cons.prems(1) b]
  have "mapping_unique (ep_num_mapping (fst (dbm_op M d c)))" .
  from Cons.IH[OF this r] show ?case by simp
qed

lemma probe_unique: "mapping_unique (ep_num_mapping (msm_dbm_probe r))"
  by (simp add: mapping_unique_def msm_dbm_probe_def)

text \<open>
  C3 (amended). Every operation keeps the mapping table free of duplicate nonzero
  endpoint numbers, provided each \<open>data_fifo_config\<close> call gets a slot index below 8 and
  an endpoint number that is 0 or bound to no other slot. So the table is free of
  duplicates in every state reached from the probed device by calls that respect this.
  The driver does not check it: \<open>data_fifo_config\<close> stores whatever it is given.
\<close>

theorem mapping_unique_preserved:
  "(mapping_unique (ep_num_mapping d) \<and> bind_ok d c \<longrightarrow>
      mapping_unique (ep_num_mapping (fst (dbm_op M d c)))) \<and>
   (calls_ok M (msm_dbm_probe r) cs \<longrightarrow>
      mapping_unique (ep_num_mapping (dbm_run M (msm_dbm_probe r) cs)))"
  using dbm_op_unique[of d c M] dbm_run_unique[OF probe_unique, of M r cs] by blast

theorem mapping_unique_preserved_witness:
  "mapping_unique (ep_num_mapping ep3_on_slot2) \<and>
   bind_ok ep3_on_slot2 (Data_fifo_config 4 0 0 1) \<and>
   mapping_unique (ep_num_mapping (fst (dbm_op sample_masks ep3_on_slot2
     (Data_fifo_config 4 0 0 1)))) \<and>
   calls_ok sample_masks (msm_dbm_probe zero_regs)
     [Data_fifo_config 3 0x100000000 4096 2, Ep_config 3 0 True False False True,
      Ep_unconfig 3, Data_fifo_config 3 0 0 4] \<and>
   mapping_unique (ep_num_mapping (dbm_run sample_masks (msm_dbm_probe zero_regs)
     [Data_fifo_config 3 0x100000000 4096 2, Ep_config 3 0 True False False True,
      Ep_unconfig 3, Data_fifo_config 3 0 0 4]))"
proof -
  have h1: "mapping_unique (ep_num_mapping ep3_on_slot2)" by code_simp
  have h2: "bind_ok ep3_on_slot2 (Data_fifo_config 4 0 0 1)" by code_simp
  have h3: "calls_ok sample_masks (msm_dbm_probe zero_regs)
     [Data_fifo_config 3 0x100000000 4096 2, Ep_config 3 0 True False False True,
      Ep_unconfig 3, Data_fifo_config 3 0 0 4]"
    by code_simp
  from mapping_unique_preserved[of ep3_on_slot2 "Data_fifo_config 4 0 0 1" sample_masks
      zero_regs "[Data_fifo_config 3 0x100000000 4096 2, Ep_config 3 0 True False False True,
      Ep_unconfig 3, Data_fifo_config 3 0 0 4]"] h1 h2 h3
  show ?thesis by blast
qed

text \<open>
  C3 as stated fails: two \<open>data_fifo_config\<close> calls that bind endpoint 3 to slot 0 and
  to slot 1 leave endpoint 3 in two entries of the table.
\<close>

theorem data_fifo_config_duplicates_endpoint:
  "ep_num_mapping (dbm_run sample_masks (msm_dbm_probe zero_regs)
     [Data_fifo_config 3 0 0 0, Data_fifo_config 3 0 0 1]) = [3, 3, 0, 0, 0, 0, 0, 0] \<and>
   \<not> mapping_unique (ep_num_mapping (dbm_run sample_masks (msm_dbm_probe zero_regs)
     [Data_fifo_config 3 0 0 0, Data_fifo_config 3 0 0 1]))"
  by code_simp

subsection \<open>Unconfigure and configure again\<close>

















end
